theory Spec2Isabelle
  imports Complex_Main "HOL-Library.AList"
begin

text \<open>
  A model of the Sweet Somnum front end (\<open>src/index.tsx\<close>): the progress store
  (\<open>loadGameState\<close>, \<open>saveGameState\<close>), the unlock gate, and the \<open>App\<close>
  component with its three screens as a state machine over user and timer events.
  The platform the program runs on (JSON, web storage, timers, the rendering of React) is
  modelled as far as the program observes it.
\<close>


section \<open>JavaScript values and outcomes\<close>

text \<open>
  A JavaScript string is a sequence of UTF-16 code units. The text kept in the browser's
  storage is modelled as an Isabelle \<open>string\<close> (8-bit characters); a string \<^emph>\<open>value\<close>
  decoded by \<open>JSON.parse\<close> may hold any code unit (through a \<open>\u\<close> escape) and is a list
  of numbers.
\<close>

type_synonym jsstring = "nat list"

definition js :: "string \<Rightarrow> jsstring" where
  "js s = map of_char s"

text \<open>
  The values \<open>JSON.parse\<close> can return. A number is the exact decimal value of its
  literal: the rounding of IEEE doubles (with overflow to infinity and underflow to zero
  at the far ends) is not modelled, and \<open>-0\<close> is \<open>0\<close>. An object is the list of
  its own properties, keys distinct.
\<close>

datatype jsval =
    JNull
  | JBool bool
  | JNum rat
  | JStr jsstring
  | JArr "jsval list"
  | JObj "(jsstring \<times> jsval) list"

datatype exn = SyntaxError | TypeError | SecurityError | QuotaExceededError

text \<open>A call either returns a value or throws.\<close>

datatype 'a outcome = Returns 'a | Throws exn

text \<open>
  \<open>ToBoolean\<close>, as an \<open>if\<close> or \<open>&&\<close> applies it; \<open>None\<close> is \<open>undefined\<close>.
\<close>

fun truthy :: "jsval option \<Rightarrow> bool" where
  "truthy None = False"
| "truthy (Some JNull) = False"
| "truthy (Some (JBool b)) = b"
| "truthy (Some (JNum q)) = (q \<noteq> 0)"
| "truthy (Some (JStr s)) = (s \<noteq> [])"
| "truthy (Some (JArr xs)) = True"
| "truthy (Some (JObj ms)) = True"

text \<open>
  Reading a property \<open>v.name\<close> for a name that no built-in prototype defines (the program
  reads \<open>currentChapter\<close> and \<open>unlockedChapters\<close> only): \<open>null\<close> throws a TypeError, an
  object gives its own property or \<open>undefined\<close>, every other value gives \<open>undefined\<close>.
\<close>

fun get_property :: "jsval \<Rightarrow> jsstring \<Rightarrow> jsval option outcome" where
  "get_property JNull name = Throws TypeError"
| "get_property (JObj ms) name = Returns (map_of ms name)"
| "get_property v name = Returns None"


section \<open>\<open>JSON.parse\<close>\<close>

text \<open>
  The platform's parser, following the JSON grammar: the text is cut into tokens and the
  tokens are read by a pushdown automaton. \<open>None\<close> is the SyntaxError.
\<close>

datatype token = TLBrace | TRBrace | TLBracket | TRBracket | TColon | TComma | TAtom jsval

definition is_ws :: "char \<Rightarrow> bool" where
  "is_ws c = (c = CHR '' '' \<or> c = CHR 0x09 \<or> c = CHR 0x0A \<or> c = CHR 0x0D)"

definition is_digit :: "char \<Rightarrow> bool" where
  "is_digit c = (c \<in> set ''0123456789'')"

definition digit_val :: "char \<Rightarrow> nat" where
  "digit_val c = of_char c - 48"

definition number_of_digits :: "string \<Rightarrow> nat" where
  "number_of_digits ds = foldl (\<lambda>n c. 10 * n + digit_val c) 0 ds"

definition hex_val :: "char \<Rightarrow> nat option" where
  "hex_val c =
     (if is_digit c then Some (of_char c - 48)
      else if c \<in> set ''abcdef'' then Some (of_char c - 87)
      else if c \<in> set ''ABCDEF'' then Some (of_char c - 55)
      else None)"

definition escape_code :: "char \<Rightarrow> nat option" where
  "escape_code e =
     (if e = CHR 0x22 then Some 0x22
      else if e = CHR 0x5C then Some 0x5C
      else if e = CHR ''/'' then Some 0x2F
      else if e = CHR ''b'' then Some 0x08
      else if e = CHR ''f'' then Some 0x0C
      else if e = CHR ''n'' then Some 0x0A
      else if e = CHR ''r'' then Some 0x0D
      else if e = CHR ''t'' then Some 0x09
      else None)"

definition cons_unit :: "nat \<Rightarrow> (jsstring \<times> string) option \<Rightarrow> (jsstring \<times> string) option" where
  "cons_unit u r = (case r of None \<Rightarrow> None | Some (s, rest) \<Rightarrow> Some (u # s, rest))"

text \<open>
  The characters of a string literal after its opening quote, up to the closing quote:
  the decoded value and the text that follows.
\<close>

fun scan_string :: "string \<Rightarrow> (jsstring \<times> string) option" where
  "scan_string [] = None"
| "scan_string (c # cs) =
     (if c = CHR 0x22 then Some ([], cs)
      else if c = CHR 0x5C then
        (case cs of
           [] \<Rightarrow> None
         | e # r \<Rightarrow>
             (if e = CHR ''u'' then
                (case r of
                   h1 # h2 # h3 # h4 # r' \<Rightarrow>
                     (case (hex_val h1, hex_val h2, hex_val h3, hex_val h4) of
                        (Some a, Some b, Some c', Some d) \<Rightarrow>
                          cons_unit (((a * 16 + b) * 16 + c') * 16 + d) (scan_string r')
                      | _ \<Rightarrow> None)
                 | _ \<Rightarrow> None)
              else
                (case escape_code e of
                   None \<Rightarrow> None
                 | Some u \<Rightarrow> cons_unit u (scan_string r))))
      else if of_char c < (0x20 :: nat) then None
      else cons_unit (of_char c) (scan_string cs))"

definition pow10 :: "int \<Rightarrow> rat" where
  "pow10 e = (if 0 \<le> e then 10 ^ nat e else 1 / 10 ^ nat (- e))"

definition scan_fraction :: "string \<Rightarrow> (string \<times> string) option" where
  "scan_fraction cs =
     (case cs of
        [] \<Rightarrow> Some ([], cs)
      | c # r \<Rightarrow>
          (if c = CHR ''.'' then
             (if takeWhile is_digit r = [] then None
              else Some (takeWhile is_digit r, dropWhile is_digit r))
           else Some ([], cs)))"

definition scan_exponent :: "string \<Rightarrow> (int \<times> string) option" where
  "scan_exponent cs =
     (case cs of
        [] \<Rightarrow> Some (0, cs)
      | c # r \<Rightarrow>
          (if c = CHR ''e'' \<or> c = CHR ''E'' then
             (let neg = (r \<noteq> [] \<and> hd r = CHR ''-'');
                  r1 = (if r \<noteq> [] \<and> (hd r = CHR ''-'' \<or> hd r = CHR ''+'') then tl r else r);
                  ds = takeWhile is_digit r1
              in if ds = [] then None
                 else Some ((if neg then - int (number_of_digits ds) else int (number_of_digits ds)),
                            dropWhile is_digit r1))
           else Some (0, cs)))"

text \<open>
  A number literal: an optional minus, an integer part without a leading zero (unless it
  is \<open>0\<close> itself), an optional fraction, an optional exponent.
\<close>

definition scan_number :: "string \<Rightarrow> (rat \<times> string) option" where
  "scan_number cs =
     (let neg = (cs \<noteq> [] \<and> hd cs = CHR ''-'');
          cs1 = (if neg then tl cs else cs);
          ip = takeWhile is_digit cs1
      in if ip = [] \<or> (hd ip = CHR ''0'' \<and> tl ip \<noteq> []) then None
         else
           (case scan_fraction (dropWhile is_digit cs1) of
              None \<Rightarrow> None
            | Some (fp, cs3) \<Rightarrow>
                (case scan_exponent cs3 of
                   None \<Rightarrow> None
                 | Some (ex, cs4) \<Rightarrow>
                     Some ((if neg then - 1 else 1) * of_nat (number_of_digits (ip @ fp))
                             * pow10 (ex - int (length fp)), cs4))))"

definition cons_token :: "token \<Rightarrow> token list option \<Rightarrow> token list option" where
  "cons_token t r = (case r of None \<Rightarrow> None | Some ts \<Rightarrow> Some (t # ts))"

text \<open>
  Each scanner returns a text shorter than the one it was given, so that cutting a text
  into tokens terminates.
\<close>

lemma cons_unit_length:
  "cons_unit u r = Some (s, rest) \<Longrightarrow> \<exists>s'. r = Some (s', rest)"
  by (auto simp: cons_unit_def split: option.splits)

lemma scan_string_shorter:
  "scan_string cs = Some (s, rest) \<Longrightarrow> length rest < length cs"
proof (induction "length cs" arbitrary: cs s rule: less_induct)
  case less
  show ?case
  proof (cases cs)
    case Nil
    with less.prems show ?thesis by simp
  next
    case (Cons c cs')
    have IH: "\<And>t s'. length t \<le> length cs' \<Longrightarrow> scan_string t = Some (s', rest)
                \<Longrightarrow> length rest < length t"
      using less.hyps Cons by simp
    from less.prems Cons show ?thesis
      by (auto split: if_splits list.splits option.splits
               dest!: cons_unit_length dest!: IH [rotated])
  qed
qed

lemma scan_fraction_shorter:
  "scan_fraction cs = Some (fp, rest) \<Longrightarrow> length rest \<le> length cs"
  by (auto simp: scan_fraction_def le_Suc_eq length_dropWhile_le split: list.splits if_splits)

lemma scan_exponent_shorter:
  "scan_exponent cs = Some (ex, rest) \<Longrightarrow> length rest \<le> length cs"
proof (cases cs)
  case Nil
  assume "scan_exponent cs = Some (ex, rest)"
  with Nil show ?thesis by (simp add: scan_exponent_def)
next
  case (Cons c r)
  assume a: "scan_exponent cs = Some (ex, rest)"
  have t: "length (tl r) \<le> length r" by simp
  have d1: "length (dropWhile is_digit r) \<le> length r" by (rule length_dropWhile_le)
  have d2: "length (dropWhile is_digit (tl r)) \<le> length r"
    using length_dropWhile_le [of is_digit "tl r"] t by linarith
  from a Cons d1 d2 show ?thesis
    by (auto simp: scan_exponent_def Let_def split: if_splits)
qed

lemma scan_number_shorter:
  assumes "scan_number cs = Some (q, rest)"
  shows "length rest < length cs"
proof -
  define neg where "neg = (cs \<noteq> [] \<and> hd cs = CHR ''-'')"
  define cs1 where "cs1 = (if neg then tl cs else cs)"
  from assms have ip: "takeWhile is_digit cs1 \<noteq> []"
    by (auto simp: scan_number_def Let_def neg_def cs1_def split: if_splits)
  from assms obtain fp cs3 ex where
    f: "scan_fraction (dropWhile is_digit cs1) = Some (fp, cs3)" and
    e: "scan_exponent cs3 = Some (ex, rest)"
    by (auto simp: scan_number_def Let_def neg_def cs1_def split: if_splits option.splits)
  have "length (takeWhile is_digit cs1) + length (dropWhile is_digit cs1) = length cs1"
    by (metis length_append takeWhile_dropWhile_id)
  with ip have "length (dropWhile is_digit cs1) < length cs1"
    by (cases "takeWhile is_digit cs1") auto
  moreover have "length cs1 \<le> length cs" by (simp add: cs1_def)
  moreover note scan_fraction_shorter [OF f] scan_exponent_shorter [OF e]
  ultimately show ?thesis by linarith
qed

function tokenize :: "string \<Rightarrow> token list option" where
  "tokenize [] = Some []"
| "tokenize (c # cs) =
     (if is_ws c then tokenize cs
      else if c = CHR ''{'' then cons_token TLBrace (tokenize cs)
      else if c = CHR ''}'' then cons_token TRBrace (tokenize cs)
      else if c = CHR ''['' then cons_token TLBracket (tokenize cs)
      else if c = CHR '']'' then cons_token TRBracket (tokenize cs)
      else if c = CHR '':'' then cons_token TColon (tokenize cs)
      else if c = CHR '','' then cons_token TComma (tokenize cs)
      else if c = CHR 0x22 then
        (case scan_string cs of
           None \<Rightarrow> None
         | Some (s, rest) \<Rightarrow> cons_token (TAtom (JStr s)) (tokenize rest))
      else if c = CHR ''-'' \<or> is_digit c then
        (case scan_number (c # cs) of
           None \<Rightarrow> None
         | Some (q, rest) \<Rightarrow> cons_token (TAtom (JNum q)) (tokenize rest))
      else if take 4 (c # cs) = ''true'' then cons_token (TAtom (JBool True)) (tokenize (drop 3 cs))
      else if take 5 (c # cs) = ''false'' then cons_token (TAtom (JBool False)) (tokenize (drop 4 cs))
      else if take 4 (c # cs) = ''null'' then cons_token (TAtom JNull) (tokenize (drop 3 cs))
      else None)"
  by pat_completeness auto
termination
proof (relation "measure length")
  fix c cs x2 x y
  assume "scan_string cs = Some x2" "(x, y) = x2"
  then show "(y, c # cs) \<in> measure length"
    using scan_string_shorter [of cs x y] by simp
next
  fix c cs x2 x y
  assume "scan_number (c # cs) = Some x2" "(x, y) = x2"
  then show "(y, c # cs) \<in> measure length"
    using scan_number_shorter [of "c # cs" x y] by simp
qed auto

text \<open>
  The automaton. A frame is an open array with the elements read so far, or an open
  object with its members and the key whose value is being read. A member read twice
  keeps its place and takes the later value.
\<close>

datatype frame = FArr "jsval list" | FObj "(jsstring \<times> jsval) list" "jsstring option"

datatype pstate = PValue | PValueOrEnd | PKey | PKeyOrEnd | PColon | PDone jsval

fun begin_value :: "token \<Rightarrow> frame list \<Rightarrow> (pstate \<times> frame list) option" where
  "begin_value (TAtom v) st = Some (PDone v, st)"
| "begin_value TLBracket st = Some (PValueOrEnd, FArr [] # st)"
| "begin_value TLBrace st = Some (PKeyOrEnd, FObj [] None # st)"
| "begin_value t st = None"

fun read_key :: "token \<Rightarrow> frame list \<Rightarrow> (pstate \<times> frame list) option" where
  "read_key (TAtom (JStr k)) (FObj ms cur # st) = Some (PColon, FObj ms (Some k) # st)"
| "read_key t st = None"

fun after_value :: "jsval \<Rightarrow> token \<Rightarrow> frame list \<Rightarrow> (pstate \<times> frame list) option" where
  "after_value v TComma (FArr es # st) = Some (PValue, FArr (es @ [v]) # st)"
| "after_value v TRBracket (FArr es # st) = Some (PDone (JArr (es @ [v])), st)"
| "after_value v TComma (FObj ms (Some k) # st) = Some (PKey, FObj (AList.update k v ms) None # st)"
| "after_value v TRBrace (FObj ms (Some k) # st) = Some (PDone (JObj (AList.update k v ms)), st)"
| "after_value v t st = None"

fun parse_step :: "token \<Rightarrow> pstate \<times> frame list \<Rightarrow> (pstate \<times> frame list) option" where
  "parse_step t (PValue, st) = begin_value t st"
| "parse_step t (PValueOrEnd, st) =
     (if t = TRBracket then
        (case st of FArr es # st' \<Rightarrow> Some (PDone (JArr es), st') | _ \<Rightarrow> None)
      else begin_value t st)"
| "parse_step t (PKeyOrEnd, st) =
     (if t = TRBrace then
        (case st of FObj ms cur # st' \<Rightarrow> Some (PDone (JObj ms), st') | _ \<Rightarrow> None)
      else read_key t st)"
| "parse_step t (PKey, st) = read_key t st"
| "parse_step t (PColon, st) = (if t = TColon then Some (PValue, st) else None)"
| "parse_step t (PDone v, st) = after_value v t st"

fun parse_tokens :: "token list \<Rightarrow> pstate \<times> frame list \<Rightarrow> jsval option" where
  "parse_tokens [] (PDone v, []) = Some v"
| "parse_tokens [] c = None"
| "parse_tokens (t # ts) c =
     (case parse_step t c of None \<Rightarrow> None | Some c' \<Rightarrow> parse_tokens ts c')"

definition JSON_parse :: "string \<Rightarrow> jsval option" where
  "JSON_parse s = (case tokenize s of None \<Rightarrow> None | Some ts \<Rightarrow> parse_tokens ts (PValue, []))"


section \<open>The progress record\<close>

text \<open>
  The interface \<open>GameState\<close> of the source. Its numbers are modelled as integers,
  which chapter numbers are.
\<close>

record GameState =
  currentChapter :: int
  unlockedChapters :: int

definition defaultGameState :: GameState where
  "defaultGameState = \<lparr>currentChapter = 1, unlockedChapters = 1\<rparr>"

definition GAME_STATE_KEY :: string where
  "GAME_STATE_KEY = ''somnumGameState''"

text \<open>
  A \<open>GameState\<close> as the object it is at run time: the properties stand in the order
  of the object literal \<open>defaultGameState\<close>, which the spread in
  \<open>navigateToGame\<close> keeps.
\<close>

definition to_js :: "GameState \<Rightarrow> jsval" where
  "to_js state =
     JObj [(js ''currentChapter'', JNum (of_int (currentChapter state))),
           (js ''unlockedChapters'', JNum (of_int (unlockedChapters state)))]"

text \<open>
  \<open>loadGameState\<close> is declared to return a \<open>GameState\<close> and returns whatever was
  parsed. The application is modelled at the declared type: a loaded value is read as a
  \<open>GameState\<close> when it is an object with exactly the two properties, in that order,
  holding integers. For any other value, which the source would carry along unchecked,
  \<open>as_GameState\<close> is \<open>None\<close>.
\<close>

fun as_GameState :: "jsval \<Rightarrow> GameState option" where
  "as_GameState (JObj [(k1, JNum a), (k2, JNum b)]) =
     (if k1 = js ''currentChapter'' \<and> k2 = js ''unlockedChapters''
         \<and> of_int \<lfloor>a\<rfloor> = a \<and> of_int \<lfloor>b\<rfloor> = b
      then Some \<lparr>currentChapter = \<lfloor>a\<rfloor>, unlockedChapters = \<lfloor>b\<rfloor>\<rparr>
      else None)"
| "as_GameState v = None"

text \<open>
  \<open>JSON.stringify\<close> at the type \<open>GameState\<close>: no white space, the properties in
  their order, an integer in decimal (as JavaScript prints every integer of magnitude
  below ten to the 21st).
\<close>

fun digits :: "nat \<Rightarrow> string" where
  "digits n =
     (if n < 10 then [''0123456789'' ! n]
      else digits (n div 10) @ [''0123456789'' ! (n mod 10)])"

declare digits.simps [simp del]

definition show_int :: "int \<Rightarrow> string" where
  "show_int i = (if i < 0 then CHR ''-'' # digits (nat (- i)) else digits (nat i))"

definition JSON_stringify :: "GameState \<Rightarrow> string" where
  \<open>JSON_stringify state =
     ''{"currentChapter":'' @ show_int (currentChapter state)
       @ '',"unlockedChapters":'' @ show_int (unlockedChapters state) @ ''}''\<close>


section \<open>Web storage, the console, and the progress store\<close>

text \<open>
  The browser's \<open>localStorage\<close>: the stored texts, and the two ways an access
  fails. A disabled storage refuses every access with a SecurityError;
  \<open>full st k v\<close> says that storing \<open>v\<close> under \<open>k\<close> would exceed the quota.
\<close>

record storage =
  items :: "string \<rightharpoonup> string"
  disabled :: bool
  full :: "string \<Rightarrow> string \<Rightarrow> bool"

definition getItem :: "storage \<Rightarrow> string \<Rightarrow> string option outcome" where
  "getItem st k = (if disabled st then Throws SecurityError else Returns (items st k))"

definition setItem :: "storage \<Rightarrow> string \<Rightarrow> string \<Rightarrow> storage outcome" where
  "setItem st k v =
     (if disabled st then Throws SecurityError
      else if full st k v then Throws QuotaExceededError
      else Returns (st\<lparr>items := (items st)(k \<mapsto> v)\<rparr>))"

text \<open>
  The console keeps what \<open>console.error\<close> and \<open>console.log\<close> were given: the
  two failure messages of the store with the error caught, the choice logged by the
  dialogue box (by its position) and the restart logged by the game view.
\<close>

datatype log_entry = LoadFailed exn | SaveFailed exn | PlayerChose nat | Restarting int

record world =
  localStorage :: storage
  console :: "log_entry list"

text \<open>
  The \<open>try\<close> block of \<open>loadGameState\<close>. \<open>Returns (Some v)\<close> is
  \<open>return parsedState\<close>, \<open>Returns None\<close> is leaving the block without a
  \<open>return\<close>, \<open>Throws e\<close> is an exception on its way to the \<open>catch\<close>
  clause. \<open>if (savedState)\<close> is false for \<open>null\<close> and for the empty string.
\<close>

definition load_try :: "storage \<Rightarrow> jsval option outcome" where
  "load_try st =
     (case getItem st GAME_STATE_KEY of
        Throws e \<Rightarrow> Throws e
      | Returns savedState \<Rightarrow>
          (case savedState of
             None \<Rightarrow> Returns None
           | Some text \<Rightarrow>
               (if text = [] then Returns None
                else
                  (case JSON_parse text of
                     None \<Rightarrow> Throws SyntaxError
                   | Some parsedState \<Rightarrow>
                       (case get_property parsedState (js ''currentChapter'') of
                          Throws e \<Rightarrow> Throws e
                        | Returns c \<Rightarrow>
                            (if \<not> truthy c then Returns None
                             else
                               (case get_property parsedState (js ''unlockedChapters'') of
                                  Throws e \<Rightarrow> Throws e
                                | Returns u \<Rightarrow>
                                    (if truthy u then Returns (Some parsedState)
                                     else Returns None))))))))"

text \<open>
  \<open>loadGameState\<close>: the \<open>catch\<close> clause logs the error, and every path that
  did not return the parsed value returns \<open>defaultGameState\<close>.
\<close>

definition loadGameState :: "world \<Rightarrow> jsval outcome \<times> world" where
  "loadGameState w =
     (case load_try (localStorage w) of
        Returns (Some parsedState) \<Rightarrow> (Returns parsedState, w)
      | Returns None \<Rightarrow> (Returns (to_js defaultGameState), w)
      | Throws e \<Rightarrow> (Returns (to_js defaultGameState), w\<lparr>console := console w @ [LoadFailed e]\<rparr>))"

text \<open>
  \<open>saveGameState\<close>: the \<open>catch\<close> clause logs the error and the function
  returns.
\<close>

definition saveGameState :: "GameState \<Rightarrow> world \<Rightarrow> unit outcome \<times> world" where
  "saveGameState state w =
     (case setItem (localStorage w) GAME_STATE_KEY (JSON_stringify state) of
        Returns st \<Rightarrow> (Returns (), w\<lparr>localStorage := st\<rparr>)
      | Throws e \<Rightarrow> (Returns (), w\<lparr>console := console w @ [SaveFailed e]\<rparr>))"


section \<open>The application\<close>

text \<open>
  The state of \<open>App\<close>: its \<open>useState\<close> cells (\<open>view\<close>,
  \<open>gameState\<close>, \<open>activeChapter\<close>, and for each of the three audio cells whether
  it is set), the child component that is mounted with its own cells, the pending timers
  and the clock in milliseconds, the storage and console, and two records of effects:
  the number of click sounds started and the arguments of the calls of
  \<open>saveGameState\<close>.

  \<open>view\<close> holds one of the three strings the source assigns to it. The cells of
  \<open>ChapterSelect\<close> are the visible tooltip and the ref with the identifier of the
  last timer; those of \<open>GameView\<close> are its three flags and the identifier of the
  fade timer its effect started. \<open>window.setTimeout\<close> numbers the timers from 1, so
  an identifier is never the falsy \<open>0\<close>; a timer records the instance of the child
  that started it, and its callback updates a cell of that instance only.
\<close>

datatype view = Menu | Chapters | Game

definition ROMAN_NUMERALS :: "string list" where
  "ROMAN_NUMERALS = [''I'', ''II'', ''III'', ''IV'', ''V'', ''VI'', ''VII'', ''VIII'', ''IX'', ''X'']"

record ChapterSelect_state =
  visibleTooltip :: "nat option"
  tooltipTimeoutRef :: "nat option"

record GameView_state =
  isPanelVisible :: bool
  showRestartConfirm :: bool
  isFadingIn :: bool
  fadeTimer :: nat

datatype child = MainMenu | ChapterSelect ChapterSelect_state | GameView GameView_state

datatype callback = HideTooltip | FadeDone

record timer =
  timer_id :: nat
  due :: nat
  owner :: nat
  callback :: callback

record app =
  view :: view
  gameState :: GameState
  activeChapter :: int
  audioContext :: bool
  audioBuffer :: bool
  gainNode :: bool
  child :: child
  child_id :: nat
  timers :: "timer list"
  timer_seq :: nat
  now :: nat
  world :: world
  sounds :: nat
  save_calls :: "GameState list"

definition setTimeout :: "callback \<Rightarrow> nat \<Rightarrow> app \<Rightarrow> nat \<times> app" where
  "setTimeout cb delay s =
     (Suc (timer_seq s),
      s\<lparr>timers := timers s @ [\<lparr>timer_id = Suc (timer_seq s), due = now s + delay,
                                owner = child_id s, callback = cb\<rparr>],
        timer_seq := Suc (timer_seq s)\<rparr>)"

definition clearTimeout :: "nat \<Rightarrow> app \<Rightarrow> app" where
  "clearTimeout i s = s\<lparr>timers := filter (\<lambda>t. timer_id t \<noteq> i) (timers s)\<rparr>"

text \<open>
  \<open>playClickSound\<close> returns at once unless the context, the buffer and the gain
  node are all set; otherwise it starts the sound (resuming a suspended context first).
  Starting the sound is taken to succeed.
\<close>

definition playClickSound :: "app \<Rightarrow> app" where
  "playClickSound s =
     (if \<not> audioContext s \<or> \<not> audioBuffer s \<or> \<not> gainNode s then s
      else s\<lparr>sounds := Suc (sounds s)\<rparr>)"

text \<open>
  \<open>MainMenu\<close>, \<open>ChapterSelect\<close> and \<open>GameView\<close> are declared inside
  \<open>App\<close>. Every render of \<open>App\<close> therefore makes new component types, and
  React replaces the mounted child: the cleanup of its effect runs (\<open>ChapterSelect\<close>
  clears the timer its ref holds when the ref is truthy, \<open>GameView\<close> clears its fade
  timer) and a fresh child of the current view is mounted (\<open>GameView\<close> starts its
  100 ms fade timer). A state update of the child alone renders the child only.
\<close>

definition unmount_child :: "app \<Rightarrow> app" where
  "unmount_child s =
     (case child s of
        MainMenu \<Rightarrow> s
      | ChapterSelect cs \<Rightarrow>
          (case tooltipTimeoutRef cs of
             None \<Rightarrow> s
           | Some i \<Rightarrow> if i \<noteq> 0 then clearTimeout i s else s)
      | GameView gv \<Rightarrow> clearTimeout (fadeTimer gv) s)"

definition mount_child :: "app \<Rightarrow> app" where
  "mount_child s =
     (let s1 = s\<lparr>child_id := Suc (child_id s)\<rparr> in
      case view s of
        Menu \<Rightarrow> s1\<lparr>child := MainMenu\<rparr>
      | Chapters \<Rightarrow> s1\<lparr>child := ChapterSelect \<lparr>visibleTooltip = None, tooltipTimeoutRef = None\<rparr>\<rparr>
      | Game \<Rightarrow>
          (case setTimeout FadeDone 100 s1 of
             (i, s2) \<Rightarrow>
               s2\<lparr>child := GameView \<lparr>isPanelVisible = False, showRestartConfirm = False,
                                      isFadingIn = True, fadeTimer = i\<rparr>\<rparr>))"

definition render :: "app \<Rightarrow> app" where
  "render s = mount_child (unmount_child s)"

text \<open>
  The effect \<open>useEffect(() => saveGameState(gameState), [gameState])\<close> runs after
  every commit in which \<open>gameState\<close> is a new object.
\<close>

definition save_effect :: "app \<Rightarrow> app" where
  "save_effect s =
     s\<lparr>world := snd (saveGameState (gameState s) (world s)),
       save_calls := save_calls s @ [gameState s]\<rparr>"

text \<open>
  The three navigation handlers. \<open>setView\<close> with the value the cell already has
  renders nothing. \<open>navigateToGame\<close> always stores a new \<open>gameState\<close> object,
  so \<open>App\<close> renders and the save effect runs.
\<close>

definition handleNavigation :: "view \<Rightarrow> app \<Rightarrow> app" where
  "handleNavigation targetView s =
     (let s1 = playClickSound s in
      if view s1 = targetView then s1 else render (s1\<lparr>view := targetView\<rparr>))"

definition handleSilentNavigation :: "view \<Rightarrow> app \<Rightarrow> app" where
  "handleSilentNavigation targetView s =
     (if view s = targetView then s else render (s\<lparr>view := targetView\<rparr>))"

definition navigateToGame :: "int \<Rightarrow> app \<Rightarrow> app" where
  "navigateToGame chapter s =
     (let s1 = playClickSound s in
      save_effect
        (render (s1\<lparr>activeChapter := chapter,
                     gameState := (gameState s1)\<lparr>currentChapter := chapter\<rparr>,
                     view := Game\<rparr>)))"

definition showTooltip :: "nat \<Rightarrow> ChapterSelect_state \<Rightarrow> app \<Rightarrow> app" where
  "showTooltip index cs s =
     (let s1 = playClickSound s;
          s2 = (case tooltipTimeoutRef cs of
                  None \<Rightarrow> s1
                | Some i \<Rightarrow> if i \<noteq> 0 then clearTimeout i s1 else s1)
      in case setTimeout HideTooltip 3000 s2 of
           (i, s3) \<Rightarrow> s3\<lparr>child := ChapterSelect \<lparr>visibleTooltip = Some index,
                                                  tooltipTimeoutRef = Some i\<rparr>\<rparr>)"

text \<open>
  The lock flag of the chapter at position \<open>index\<close> of the list is
  \<open>isLocked (chapterNumber index) (unlockedChapters gameState)\<close>.
\<close>

definition chapterNumber :: "nat \<Rightarrow> int" where
  "chapterNumber index = int index + 1"

definition isLocked :: "int \<Rightarrow> int \<Rightarrow> bool" where
  "isLocked chapter unlocked = (chapter > unlocked)"

text \<open>
  Time: after \<open>d\<close> milliseconds the timers that are due have fired, earliest
  first, and are no longer pending.
\<close>

definition fire :: "timer \<Rightarrow> app \<Rightarrow> app" where
  "fire t s =
     (if owner t \<noteq> child_id s then s
      else
        (case child s of
           MainMenu \<Rightarrow> s
         | ChapterSelect cs \<Rightarrow>
             (if callback t = HideTooltip
              then s\<lparr>child := ChapterSelect (cs\<lparr>visibleTooltip := None\<rparr>)\<rparr> else s)
         | GameView gv \<Rightarrow>
             (if callback t = FadeDone
              then s\<lparr>child := GameView (gv\<lparr>isFadingIn := False\<rparr>)\<rparr> else s)))"

definition advance :: "nat \<Rightarrow> app \<Rightarrow> app" where
  "advance d s =
     fold fire (sort_key due (filter (\<lambda>t. due t \<le> now s + d) (timers s)))
       (s\<lparr>timers := filter (\<lambda>t. \<not> due t \<le> now s + d) (timers s), now := now s + d\<rparr>)"

text \<open>
  The events: the buttons of the three screens, the end of the decoding of the click
  sound (\<open>setAudioBuffer\<close>, a render of \<open>App\<close>), and the passing of time.
  \<open>step\<close> is \<open>None\<close> when the screen that is mounted has no such button.
\<close>

datatype event =
    ClickStart | ClickLoad
  | ClickChapter nat | ClickBack
  | ClickPanelTrigger | ClickTopPanel | ClickExit | ClickRestart | ClickYes | ClickNo
  | ClickChoice nat
  | AudioLoaded
  | Advance nat

definition game_event :: "event \<Rightarrow> GameView_state \<Rightarrow> app \<Rightarrow> app option" where
  "game_event e gv s =
     (case e of
        ClickPanelTrigger \<Rightarrow> Some (s\<lparr>child := GameView (gv\<lparr>isPanelVisible := \<not> isPanelVisible gv\<rparr>)\<rparr>)
      | ClickTopPanel \<Rightarrow> Some (s\<lparr>child := GameView (gv\<lparr>isPanelVisible := \<not> isPanelVisible gv\<rparr>)\<rparr>)
      | ClickExit \<Rightarrow> Some (handleSilentNavigation Menu s)
      | ClickRestart \<Rightarrow> Some (s\<lparr>child := GameView (gv\<lparr>showRestartConfirm := True\<rparr>)\<rparr>)
      | ClickYes \<Rightarrow>
          (if showRestartConfirm gv
           then Some (s\<lparr>world := (world s)\<lparr>console := console (world s) @ [Restarting (activeChapter s)]\<rparr>,
                        child := GameView (gv\<lparr>showRestartConfirm := False, isPanelVisible := False\<rparr>)\<rparr>)
           else None)
      | ClickNo \<Rightarrow>
          (if showRestartConfirm gv
           then Some (s\<lparr>child := GameView (gv\<lparr>showRestartConfirm := False\<rparr>)\<rparr>)
           else None)
      | ClickChoice i \<Rightarrow>
          (if i < 2
           then Some (playClickSound
                  (s\<lparr>world := (world s)\<lparr>console := console (world s) @ [PlayerChose i]\<rparr>\<rparr>))
           else None)
      | _ \<Rightarrow> None)"

definition step :: "event \<Rightarrow> app \<Rightarrow> app option" where
  "step e s =
     (case e of
        Advance d \<Rightarrow> Some (advance d s)
      | AudioLoaded \<Rightarrow> (if audioBuffer s then None else Some (render (s\<lparr>audioBuffer := True\<rparr>)))
      | _ \<Rightarrow>
        (case child s of
           MainMenu \<Rightarrow>
             (case e of
                ClickStart \<Rightarrow> Some (navigateToGame (currentChapter (gameState s)) s)
              | ClickLoad \<Rightarrow> Some (handleNavigation Chapters s)
              | _ \<Rightarrow> None)
         | ChapterSelect cs \<Rightarrow>
             (case e of
                ClickChapter index \<Rightarrow>
                  (if index < length ROMAN_NUMERALS
                   then Some (if isLocked (chapterNumber index) (unlockedChapters (gameState s))
                              then showTooltip index cs s
                              else navigateToGame (chapterNumber index) s)
                   else None)
              | ClickBack \<Rightarrow> Some (handleNavigation Menu s)
              | _ \<Rightarrow> None)
         | GameView gv \<Rightarrow> game_event e gv s))"

fun run :: "event list \<Rightarrow> app \<Rightarrow> app option" where
  "run [] s = Some s"
| "run (e # es) s = (case step e s of None \<Rightarrow> None | Some s' \<Rightarrow> run es s')"

text \<open>
  The application after its first commit and effects: the loaded state in
  \<open>gameState\<close>, its chapter in \<open>activeChapter\<close>, the menu on screen, the audio
  context and gain node created (the buffer arrives later, if at all), and the first run
  of the save effect. The double invocation of React's strict mode in development builds
  is not modelled.
\<close>

definition App_init :: "GameState \<Rightarrow> world \<Rightarrow> app" where
  "App_init g w =
     save_effect
       \<lparr>view = Menu, gameState = g, activeChapter = currentChapter g,
        audioContext = True, audioBuffer = False, gainNode = True,
        child = MainMenu, child_id = 0, timers = [], timer_seq = 0, now = 0,
        world = w, sounds = 0, save_calls = []\<rparr>"

definition App_mount :: "world \<Rightarrow> app option" where
  "App_mount w =
     (case loadGameState w of
        (Throws e, w1) \<Rightarrow> None
      | (Returns v, w1) \<Rightarrow>
          (case as_GameState v of None \<Rightarrow> None | Some g \<Rightarrow> Some (App_init g w1)))"

text \<open>
  The states the running application can be in, whatever state was loaded.
\<close>

inductive reachable :: "app \<Rightarrow> bool" where
  mounted: "reachable (App_init g w)"
| stepped: "reachable s \<Longrightarrow> step e s = Some s' \<Longrightarrow> reachable s'"


section \<open>Example worlds and states\<close>

definition fresh_world :: world where
  "fresh_world = \<lparr>localStorage = \<lparr>items = Map.empty, disabled = False, full = (\<lambda>k v. False)\<rparr>, console = []\<rparr>"

text \<open>Example worlds: a storage holding one text under the program's key, a storage
  whose every access is refused, and a storage that is full.\<close>

definition stored :: "string \<Rightarrow> world" where
  "stored text =
     \<lparr>localStorage = \<lparr>items = [GAME_STATE_KEY \<mapsto> text], disabled = False, full = (\<lambda>k v. False)\<rparr>,
      console = []\<rparr>"

definition blocked_world :: world where
  "blocked_world =
     \<lparr>localStorage = \<lparr>items = Map.empty, disabled = True, full = (\<lambda>k v. False)\<rparr>, console = []\<rparr>"

definition full_world :: world where
  \<open>full_world =
     \<lparr>localStorage = \<lparr>items = [GAME_STATE_KEY \<mapsto> ''{"currentChapter":2,"unlockedChapters":3}''],
                      disabled = False, full = (\<lambda>k v. True)\<rparr>, console = []\<rparr>\<close>

text \<open>Example states: the application mounted on an empty storage, and the chapter-select
  screen opened from there.\<close>

definition menu_state :: app where
  "menu_state = App_init defaultGameState fresh_world"

definition select_state :: app where
  "select_state = handleNavigation Chapters menu_state"

definition playing_state :: app where
  "playing_state = navigateToGame 1 select_state"


section \<open>The serialised record parses back\<close>


















lemma as_GameState_to_js: "as_GameState (to_js state) = Some state"
  by (simp add: to_js_def)



section \<open>What each operation leaves unchanged\<close>

lemma playClickSound_frame [simp]:
  "view (playClickSound s) = view s"
  "gameState (playClickSound s) = gameState s"
  "activeChapter (playClickSound s) = activeChapter s"
  "child (playClickSound s) = child s"
  "child_id (playClickSound s) = child_id s"
  "timers (playClickSound s) = timers s"
  "timer_seq (playClickSound s) = timer_seq s"
  "now (playClickSound s) = now s"
  "world (playClickSound s) = world s"
  "save_calls (playClickSound s) = save_calls s"
  "audioBuffer (playClickSound s) = audioBuffer s"
  by (simp_all add: playClickSound_def)

lemma clearTimeout_frame [simp]:
  "view (clearTimeout i s) = view s"
  "gameState (clearTimeout i s) = gameState s"
  "activeChapter (clearTimeout i s) = activeChapter s"
  "child (clearTimeout i s) = child s"
  "child_id (clearTimeout i s) = child_id s"
  "timers (clearTimeout i s) = filter (\<lambda>t. timer_id t \<noteq> i) (timers s)"
  "timer_seq (clearTimeout i s) = timer_seq s"
  "now (clearTimeout i s) = now s"
  "world (clearTimeout i s) = world s"
  "sounds (clearTimeout i s) = sounds s"
  "save_calls (clearTimeout i s) = save_calls s"
  "audioBuffer (clearTimeout i s) = audioBuffer s"
  by (simp_all add: clearTimeout_def)

lemma unmount_child_frame [simp]:
  "view (unmount_child s) = view s"
  "gameState (unmount_child s) = gameState s"
  "activeChapter (unmount_child s) = activeChapter s"
  "child_id (unmount_child s) = child_id s"
  "timer_seq (unmount_child s) = timer_seq s"
  "now (unmount_child s) = now s"
  "world (unmount_child s) = world s"
  "sounds (unmount_child s) = sounds s"
  "save_calls (unmount_child s) = save_calls s"
  "audioBuffer (unmount_child s) = audioBuffer s"
  by (simp_all add: unmount_child_def split: child.splits option.splits)

lemma mount_child_frame [simp]:
  "view (mount_child s) = view s"
  "gameState (mount_child s) = gameState s"
  "activeChapter (mount_child s) = activeChapter s"
  "child_id (mount_child s) = Suc (child_id s)"
  "now (mount_child s) = now s"
  "world (mount_child s) = world s"
  "sounds (mount_child s) = sounds s"
  "save_calls (mount_child s) = save_calls s"
  "audioBuffer (mount_child s) = audioBuffer s"
  by (simp_all add: mount_child_def setTimeout_def Let_def split: view.splits)

lemma render_frame [simp]:
  "view (render s) = view s"
  "gameState (render s) = gameState s"
  "activeChapter (render s) = activeChapter s"
  "child_id (render s) = Suc (child_id s)"
  "now (render s) = now s"
  "world (render s) = world s"
  "sounds (render s) = sounds s"
  "save_calls (render s) = save_calls s"
  "audioBuffer (render s) = audioBuffer s"
  by (simp_all add: render_def)

lemma save_effect_frame [simp]:
  "view (save_effect s) = view s"
  "gameState (save_effect s) = gameState s"
  "activeChapter (save_effect s) = activeChapter s"
  "child (save_effect s) = child s"
  "child_id (save_effect s) = child_id s"
  "timers (save_effect s) = timers s"
  "timer_seq (save_effect s) = timer_seq s"
  "now (save_effect s) = now s"
  "sounds (save_effect s) = sounds s"
  "audioBuffer (save_effect s) = audioBuffer s"
  "world (save_effect s) = snd (saveGameState (gameState s) (world s))"
  "save_calls (save_effect s) = save_calls s @ [gameState s]"
  by (simp_all add: save_effect_def)

lemma navigateToGame_fields:
  "view (navigateToGame chapter s) = Game"
  "activeChapter (navigateToGame chapter s) = chapter"
  "gameState (navigateToGame chapter s) = (gameState s)\<lparr>currentChapter := chapter\<rparr>"
  "save_calls (navigateToGame chapter s) = save_calls s @ [(gameState s)\<lparr>currentChapter := chapter\<rparr>]"
  "world (navigateToGame chapter s)
     = snd (saveGameState ((gameState s)\<lparr>currentChapter := chapter\<rparr>) (world s))"
  "sounds (navigateToGame chapter s) = sounds (playClickSound s)"
  "now (navigateToGame chapter s) = now s"
  by (simp_all add: navigateToGame_def Let_def)

lemma handleNavigation_fields:
  "gameState (handleNavigation target s) = gameState s"
  "activeChapter (handleNavigation target s) = activeChapter s"
  "view (handleNavigation target s) = target"
  "world (handleNavigation target s) = world s"
  "save_calls (handleNavigation target s) = save_calls s"
  by (simp_all add: handleNavigation_def Let_def)

lemma handleSilentNavigation_fields:
  "gameState (handleSilentNavigation target s) = gameState s"
  "activeChapter (handleSilentNavigation target s) = activeChapter s"
  "view (handleSilentNavigation target s) = target"
  "world (handleSilentNavigation target s) = world s"
  "save_calls (handleSilentNavigation target s) = save_calls s"
  "sounds (handleSilentNavigation target s) = sounds s"
  by (simp_all add: handleSilentNavigation_def)

lemma showTooltip_fields:
  "gameState (showTooltip index cs s) = gameState s"
  "activeChapter (showTooltip index cs s) = activeChapter s"
  "view (showTooltip index cs s) = view s"
  "world (showTooltip index cs s) = world s"
  "save_calls (showTooltip index cs s) = save_calls s"
  "child_id (showTooltip index cs s) = child_id s"
  "now (showTooltip index cs s) = now s"
  "audioBuffer (showTooltip index cs s) = audioBuffer s"
  "timer_seq (showTooltip index cs s) = Suc (timer_seq s)"
  "sounds (showTooltip index cs s) = sounds (playClickSound s)"
  "child (showTooltip index cs s)
     = ChapterSelect \<lparr>visibleTooltip = Some index, tooltipTimeoutRef = Some (Suc (timer_seq s))\<rparr>"
  by (simp_all add: showTooltip_def setTimeout_def Let_def split: option.splits)

lemma showTooltip_timers:
  "timers (showTooltip index cs s)
     = filter (\<lambda>t. Some (timer_id t) \<noteq> tooltipTimeoutRef cs) (timers s)
       @ [\<lparr>timer_id = Suc (timer_seq s), due = now s + 3000, owner = child_id s,
           callback = HideTooltip\<rparr>]"
  if "\<forall>t \<in> set (timers s). timer_id t \<noteq> 0"
proof -
  have z: "filter (\<lambda>t. 0 < timer_id t) (timers s) = timers s"
    using that by (simp add: filter_id_conv)
  show ?thesis
    by (cases "tooltipTimeoutRef cs") (auto simp: showTooltip_def setTimeout_def Let_def z)
qed

lemma fire_frame [simp]:
  "view (fire t s) = view s"
  "gameState (fire t s) = gameState s"
  "activeChapter (fire t s) = activeChapter s"
  "child_id (fire t s) = child_id s"
  "timers (fire t s) = timers s"
  "timer_seq (fire t s) = timer_seq s"
  "now (fire t s) = now s"
  "world (fire t s) = world s"
  "sounds (fire t s) = sounds s"
  "save_calls (fire t s) = save_calls s"
  "audioBuffer (fire t s) = audioBuffer s"
  by (simp_all add: fire_def split: child.splits)

lemma fold_fire_frame [simp]:
  "view (fold fire ts s) = view s"
  "gameState (fold fire ts s) = gameState s"
  "activeChapter (fold fire ts s) = activeChapter s"
  "child_id (fold fire ts s) = child_id s"
  "timers (fold fire ts s) = timers s"
  "timer_seq (fold fire ts s) = timer_seq s"
  "now (fold fire ts s) = now s"
  "world (fold fire ts s) = world s"
  "sounds (fold fire ts s) = sounds s"
  "save_calls (fold fire ts s) = save_calls s"
  "audioBuffer (fold fire ts s) = audioBuffer s"
  by (induction ts arbitrary: s; simp)+

lemma advance_frame [simp]:
  "view (advance d s) = view s"
  "gameState (advance d s) = gameState s"
  "activeChapter (advance d s) = activeChapter s"
  "child_id (advance d s) = child_id s"
  "timers (advance d s) = filter (\<lambda>t. \<not> due t \<le> now s + d) (timers s)"
  "timer_seq (advance d s) = timer_seq s"
  "now (advance d s) = now s + d"
  "world (advance d s) = world s"
  "sounds (advance d s) = sounds s"
  "save_calls (advance d s) = save_calls s"
  "audioBuffer (advance d s) = audioBuffer s"
  by (simp_all add: advance_def)

lemma game_event_gameState:
  "game_event e gv s = Some s' \<Longrightarrow>
     gameState s' = gameState s \<and> activeChapter s' = activeChapter s"
  by (cases e) (auto simp: game_event_def handleSilentNavigation_fields split: if_splits)

lemma step_unlockedChapters:
  assumes "step e s = Some s'"
  shows "unlockedChapters (gameState s') = unlockedChapters (gameState s)"
proof (cases e)
  case (Advance d)
  with assms show ?thesis by (auto simp: step_def)
next
  case AudioLoaded
  with assms show ?thesis by (auto simp: step_def split: if_splits)
next
  case ClickStart
  with assms show ?thesis
    by (auto simp: step_def game_event_def navigateToGame_fields split: child.splits)
next
  case ClickLoad
  with assms show ?thesis
    by (auto simp: step_def game_event_def handleNavigation_fields split: child.splits)
next
  case (ClickChapter index)
  with assms show ?thesis
    by (auto simp: step_def game_event_def navigateToGame_fields showTooltip_fields
        split: child.splits if_splits)
next
  case ClickBack
  with assms show ?thesis
    by (auto simp: step_def game_event_def handleNavigation_fields split: child.splits)
qed (use assms in \<open>auto simp: step_def split: child.splits dest: game_event_gameState\<close>)

lemma run_unlockedChapters:
  "run es s = Some s' \<Longrightarrow> unlockedChapters (gameState s') = unlockedChapters (gameState s)"
proof (induction es arbitrary: s)
  case Nil
  then show ?case by simp
next
  case (Cons e es)
  then obtain s1 where 1: "step e s = Some s1" and 2: "run es s1 = Some s'"
    by (auto split: option.splits)
  from Cons.IH [OF 2] step_unlockedChapters [OF 1] show ?case by simp
qed

lemma mount_child_child:
  "child (mount_child s) =
     (case view s of
        Menu \<Rightarrow> MainMenu
      | Chapters \<Rightarrow> ChapterSelect \<lparr>visibleTooltip = None, tooltipTimeoutRef = None\<rparr>
      | Game \<Rightarrow> GameView \<lparr>isPanelVisible = False, showRestartConfirm = False,
                            isFadingIn = True, fadeTimer = Suc (timer_seq s)\<rparr>)"
  by (simp add: mount_child_def setTimeout_def Let_def split: view.splits)

lemma render_child:
  "child (render s) =
     (case view s of
        Menu \<Rightarrow> MainMenu
      | Chapters \<Rightarrow> ChapterSelect \<lparr>visibleTooltip = None, tooltipTimeoutRef = None\<rparr>
      | Game \<Rightarrow> GameView \<lparr>isPanelVisible = False, showRestartConfirm = False,
                            isFadingIn = True, fadeTimer = Suc (timer_seq s)\<rparr>)"
  by (simp add: render_def mount_child_child split: view.splits)

lemma navigateToGame_child:
  "child (navigateToGame chapter s)
     = GameView \<lparr>isPanelVisible = False, showRestartConfirm = False, isFadingIn = True,
                  fadeTimer = Suc (timer_seq s)\<rparr>"
  by (simp add: navigateToGame_def Let_def render_child)

lemma unmount_child_child [simp]: "child (unmount_child s) = child s"
  by (simp add: unmount_child_def split: child.splits option.splits)

lemma render_timers:
  "timers (render s) =
     timers (unmount_child s) @
       (if view s = Game
        then [\<lparr>timer_id = Suc (timer_seq s), due = now s + 100, owner = Suc (child_id s),
               callback = FadeDone\<rparr>]
        else [])"
  by (simp add: render_def mount_child_def setTimeout_def Let_def split: view.splits)

lemma render_timer_seq:
  "timer_seq (render s) = (if view s = Game then Suc (timer_seq s) else timer_seq s)"
  by (simp add: render_def mount_child_def setTimeout_def Let_def split: view.splits)

lemma unmount_child_cong:
  "child s' = child s \<Longrightarrow> timers s' = timers s \<Longrightarrow>
     timers (unmount_child s') = timers (unmount_child s)"
  by (simp add: unmount_child_def clearTimeout_def split: child.splits option.splits)


section \<open>The example states\<close>

lemma menu_state_fields:
  "view menu_state = Menu" "child menu_state = MainMenu" "gameState menu_state = defaultGameState"
  "activeChapter menu_state = 1" "timers menu_state = []" "timer_seq menu_state = 0"
  "now menu_state = 0" "child_id menu_state = 0" "save_calls menu_state = [defaultGameState]"
  "sounds menu_state = 0"
  by (simp_all add: menu_state_def App_init_def defaultGameState_def)

lemma select_state_fields:
  "view select_state = Chapters"
  "child select_state = ChapterSelect \<lparr>visibleTooltip = None, tooltipTimeoutRef = None\<rparr>"
  "gameState select_state = defaultGameState" "activeChapter select_state = 1"
  "save_calls select_state = [defaultGameState]" "now select_state = 0"
  "child_id select_state = 1"
  by (simp_all add: select_state_def handleNavigation_def Let_def menu_state_fields render_child)

lemma select_state_timers: "timers select_state = []" "timer_seq select_state = 0"
  by (simp_all add: select_state_def handleNavigation_def Let_def menu_state_fields
      render_def mount_child_def unmount_child_def playClickSound_def)

lemma App_mount_fresh: "App_mount fresh_world = Some menu_state"
proof -
  have "loadGameState fresh_world = (Returns (to_js defaultGameState), fresh_world)"
    by (simp add: loadGameState_def load_try_def getItem_def fresh_world_def)
  then show ?thesis by (simp add: App_mount_def as_GameState_to_js menu_state_def)
qed

lemma step_ClickLoad_menu: "step ClickLoad menu_state = Some select_state"
  by (simp add: step_def menu_state_fields select_state_def)

lemma reachable_menu_state: "reachable menu_state"
  unfolding menu_state_def by (rule reachable.mounted)

lemma reachable_select_state: "reachable select_state"
  using reachable_menu_state step_ClickLoad_menu by (rule reachable.stepped)

lemma reachable_playing_state: "reachable playing_state"
proof -
  have "step (ClickChapter 0) select_state = Some playing_state"
    by (simp add: step_def select_state_fields ROMAN_NUMERALS_def isLocked_def chapterNumber_def
        defaultGameState_def playing_state_def)
  with reachable_select_state show ?thesis by (rule reachable.stepped)
qed


section \<open>The invariant of reachable states\<close>

text \<open>
  The invariant of the states the application can reach: the active chapter is the
  current chapter; the pending timers are those of the mounted child (at most the one
  its ref or its effect holds); the mounted child is the one the view selects.
\<close>

definition child_ok :: "view \<Rightarrow> nat \<Rightarrow> timer list \<Rightarrow> child \<Rightarrow> bool" where
  "child_ok v cid ts c =
     (case c of
        MainMenu \<Rightarrow> v = Menu \<and> ts = []
      | ChapterSelect cs \<Rightarrow>
          v = Chapters \<and>
          (\<forall>t \<in> set ts. tooltipTimeoutRef cs = Some (timer_id t) \<and> callback t = HideTooltip
                          \<and> owner t = cid)
      | GameView gv \<Rightarrow> v = Game \<and> (\<forall>t \<in> set ts. timer_id t = fadeTimer gv))"

definition wf :: "app \<Rightarrow> bool" where
  "wf s =
     (activeChapter s = currentChapter (gameState s)
      \<and> (\<forall>t \<in> set (timers s). 0 < timer_id t \<and> timer_id t \<le> timer_seq s)
      \<and> child_ok (view s) (child_id s) (timers s) (child s))"

lemma unmount_child_timers:
  assumes "wf s"
  shows "timers (unmount_child s) = []"
proof (cases "child s")
  case MainMenu
  with assms show ?thesis by (simp add: wf_def child_ok_def unmount_child_def)
next
  case (ChapterSelect cs)
  with assms have a: "\<forall>t \<in> set (timers s). tooltipTimeoutRef cs = Some (timer_id t) \<and> 0 < timer_id t"
    by (auto simp: wf_def child_ok_def)
  show ?thesis
  proof (cases "timers s")
    case Nil
    with ChapterSelect show ?thesis
      by (simp add: unmount_child_def split: option.splits)
  next
    case (Cons t ts)
    with a have "tooltipTimeoutRef cs = Some (timer_id t)" "0 < timer_id t" by auto
    with a ChapterSelect show ?thesis
      by (auto simp: unmount_child_def filter_empty_conv)
  qed
next
  case (GameView gv)
  with assms show ?thesis
    by (auto simp: wf_def child_ok_def unmount_child_def filter_empty_conv)
qed

lemma render_wf:
  assumes "timers (unmount_child s) = []"
    and "activeChapter s = currentChapter (gameState s)"
  shows "wf (render s)"
  using assms
  by (cases "view s") (simp_all add: wf_def child_ok_def render_timers render_timer_seq render_child)

lemma wf_navigateToGame: "wf s \<Longrightarrow> wf (navigateToGame chapter s)"
proof -
  assume w: "wf s"
  let ?s2 = "(playClickSound s)\<lparr>activeChapter := chapter,
      gameState := (gameState (playClickSound s))\<lparr>currentChapter := chapter\<rparr>, view := Game\<rparr>"
  have "timers (unmount_child ?s2) = timers (unmount_child s)"
    by (rule unmount_child_cong) simp_all
  with unmount_child_timers [OF w] have "timers (unmount_child ?s2) = []" by simp
  then have "wf (render ?s2)" by (rule render_wf) simp
  then have "wf (save_effect (render ?s2))" by (simp add: wf_def)
  then show ?thesis by (simp add: navigateToGame_def Let_def)
qed

lemma wf_set_view_render:
  assumes "wf s" and "child s' = child s" and "timers s' = timers s"
    and "activeChapter s' = currentChapter (gameState s')"
  shows "wf (render s')"
proof -
  have "timers (unmount_child s') = timers (unmount_child s)"
    using assms(2,3) by (rule unmount_child_cong)
  with unmount_child_timers [OF assms(1)] have "timers (unmount_child s') = []" by simp
  then show ?thesis using assms(4) by (rule render_wf)
qed

lemma wf_playClickSound: "wf s \<Longrightarrow> wf (playClickSound s)"
  by (simp add: wf_def)

lemma wf_handleNavigation: "wf s \<Longrightarrow> wf (handleNavigation target s)"
proof -
  assume w: "wf s"
  have "wf (render ((playClickSound s)\<lparr>view := target\<rparr>))"
    using w by (rule wf_set_view_render) (use w in \<open>simp_all add: wf_def\<close>)
  with w show ?thesis by (simp add: handleNavigation_def Let_def wf_playClickSound)
qed

lemma wf_handleSilentNavigation: "wf s \<Longrightarrow> wf (handleSilentNavigation target s)"
proof -
  assume w: "wf s"
  have "wf (render (s\<lparr>view := target\<rparr>))"
    using w by (rule wf_set_view_render) (use w in \<open>simp_all add: wf_def\<close>)
  with w show ?thesis by (simp add: handleSilentNavigation_def)
qed

lemma wf_timer_ids: "wf s \<Longrightarrow> \<forall>t \<in> set (timers s). timer_id t \<noteq> 0"
  by (auto simp: wf_def)

lemma wf_showTooltip_timers:
  assumes "wf s" and "child s = ChapterSelect cs"
  shows "timers (showTooltip index cs s)
     = [\<lparr>timer_id = Suc (timer_seq s), due = now s + 3000, owner = child_id s,
          callback = HideTooltip\<rparr>]"
proof -
  from assms have "\<forall>t \<in> set (timers s). tooltipTimeoutRef cs = Some (timer_id t)"
    by (simp add: wf_def child_ok_def)
  then have "filter (\<lambda>t. Some (timer_id t) \<noteq> tooltipTimeoutRef cs) (timers s) = []"
    by (auto simp: filter_empty_conv)
  with showTooltip_timers [OF wf_timer_ids [OF assms(1)], of index cs] show ?thesis by simp
qed

lemma wf_showTooltip:
  assumes "wf s" and "child s = ChapterSelect cs"
  shows "wf (showTooltip index cs s)"
  using assms wf_showTooltip_timers [OF assms, of index]
  by (simp add: wf_def child_ok_def showTooltip_fields)

lemma fire_child_ok: "child_ok v cid ts (child (fire t s)) = child_ok v cid ts (child s)"
  by (simp add: fire_def child_ok_def split: child.splits)

lemma fold_fire_child_ok:
  "child_ok v cid ts (child (fold fire fs s)) = child_ok v cid ts (child s)"
  by (induction fs arbitrary: s) (simp_all add: fire_child_ok)

lemma child_ok_filter:
  "child_ok v cid ts c \<Longrightarrow> child_ok v cid (filter P ts) c"
  by (auto simp: child_ok_def split: child.splits)

lemma wf_advance: "wf s \<Longrightarrow> wf (advance d s)"
proof -
  assume w: "wf s"
  have "child_ok (view s) (child_id s) (filter (\<lambda>t. \<not> due t \<le> now s + d) (timers s))
          (child (advance d s))"
    unfolding advance_def fold_fire_child_ok
    using w by (simp add: wf_def child_ok_filter)
  with w show ?thesis by (simp add: wf_def)
qed

lemma wf_game_event:
  assumes "wf s" and "child s = GameView gv" and "game_event e gv s = Some s'"
  shows "wf s'"
proof (cases e)
  case ClickExit
  with assms show ?thesis by (auto simp: game_event_def wf_handleSilentNavigation)
qed (use assms in \<open>auto simp: game_event_def wf_def child_ok_def playClickSound_def split: if_splits\<close>)

lemma wf_step:
  assumes "wf s" and "step e s = Some s'"
  shows "wf s'"
proof (cases e)
  case (Advance d)
  with assms show ?thesis by (auto simp: step_def wf_advance)
next
  case AudioLoaded
  have "wf (render (s\<lparr>audioBuffer := True\<rparr>))"
    using assms(1) by (rule wf_set_view_render) (use assms(1) in \<open>simp_all add: wf_def\<close>)
  with AudioLoaded assms show ?thesis by (auto simp: step_def split: if_splits)
next
  case ClickStart
  with assms show ?thesis
    by (auto simp: step_def game_event_def wf_navigateToGame split: child.splits)
next
  case ClickLoad
  with assms show ?thesis
    by (auto simp: step_def game_event_def wf_handleNavigation split: child.splits)
next
  case (ClickChapter index)
  with assms show ?thesis
    by (auto simp: step_def game_event_def wf_navigateToGame wf_showTooltip
        split: child.splits if_splits)
next
  case ClickBack
  with assms show ?thesis
    by (auto simp: step_def game_event_def wf_handleNavigation split: child.splits)
qed (use assms in \<open>auto simp: step_def split: child.splits dest: wf_game_event\<close>)

lemma wf_App_init: "wf (App_init g w)"
  by (simp add: App_init_def wf_def child_ok_def)

lemma reachable_wf: "reachable s \<Longrightarrow> wf s"
  by (induction rule: reachable.induct) (auto intro: wf_App_init wf_step)

lemma wf_view_child:
  "wf s \<Longrightarrow> view s = Game \<Longrightarrow> \<exists>gv. child s = GameView gv"
  "wf s \<Longrightarrow> view s = Chapters \<Longrightarrow> \<exists>cs. child s = ChapterSelect cs"
  "wf s \<Longrightarrow> view s = Menu \<Longrightarrow> child s = MainMenu"
  by (auto simp: wf_def child_ok_def split: child.splits)






section \<open>The states the application saves\<close>

text \<open>
  Whatever the storage holds when the application is mounted, the state it keeps and
  every state it passes to \<open>saveGameState\<close> have two non-zero fields: a loaded
  record passed the truthiness check, and \<open>navigateToGame\<close> is called with the
  current chapter or with a chapter number of the list.
\<close>

definition saved_nonzero :: "app \<Rightarrow> bool" where
  "saved_nonzero s =
     (\<forall>g \<in> set (gameState s # save_calls s). currentChapter g \<noteq> 0 \<and> unlockedChapters g \<noteq> 0)"

lemma as_GameState_Some:
  assumes "as_GameState v = Some g"
  shows "\<exists>a b. v = JObj [(js ''currentChapter'', JNum a), (js ''unlockedChapters'', JNum b)]
           \<and> of_int \<lfloor>a\<rfloor> = a \<and> of_int \<lfloor>b\<rfloor> = b
           \<and> g = \<lparr>currentChapter = \<lfloor>a\<rfloor>, unlockedChapters = \<lfloor>b\<rfloor>\<rparr>"
  using assms by (cases v rule: as_GameState.cases) (auto split: if_splits)

lemma loadGameState_typed_nonzero:
  assumes "loadGameState w = (Returns v, w1)" and "as_GameState v = Some g"
  shows "currentChapter g \<noteq> 0 \<and> unlockedChapters g \<noteq> 0"
proof (cases "load_try (localStorage w)")
  case (Throws e)
  with assms have "g = defaultGameState"
    by (auto simp: loadGameState_def as_GameState_to_js)
  then show ?thesis by (simp add: defaultGameState_def)
next
  case (Returns r)
  show ?thesis
  proof (cases r)
    case None
    with Returns assms have "g = defaultGameState"
      by (auto simp: loadGameState_def as_GameState_to_js)
    then show ?thesis by (simp add: defaultGameState_def)
  next
    case (Some parsedState)
    with Returns assms(1) have v: "v = parsedState" by (simp add: loadGameState_def)
    from as_GameState_Some [OF assms(2)] obtain a b where
      s: "v = JObj [(js ''currentChapter'', JNum a), (js ''unlockedChapters'', JNum b)]"
      and i: "of_int \<lfloor>a\<rfloor> = a" "of_int \<lfloor>b\<rfloor> = b"
      and g: "g = \<lparr>currentChapter = \<lfloor>a\<rfloor>, unlockedChapters = \<lfloor>b\<rfloor>\<rparr>"
      by blast
    have k: "js ''unlockedChapters'' \<noteq> js ''currentChapter''" by (simp add: js_def)
    from Returns Some v s k have "a \<noteq> 0 \<and> b \<noteq> 0"
      by (auto simp: load_try_def getItem_def split: if_splits option.splits outcome.splits)
    with i g show ?thesis by auto
  qed
qed

lemma App_mount_nonzero: "App_mount w = Some s \<Longrightarrow> saved_nonzero s"
  by (auto simp: App_mount_def App_init_def saved_nonzero_def save_effect_def
      split: prod.splits outcome.splits option.splits dest: loadGameState_typed_nonzero)

lemma navigateToGame_nonzero:
  "saved_nonzero s \<Longrightarrow> chapter \<noteq> 0 \<Longrightarrow> saved_nonzero (navigateToGame chapter s)"
  by (simp add: saved_nonzero_def navigateToGame_fields)

lemma game_event_saves:
  "game_event e gv s = Some s' \<Longrightarrow> gameState s' = gameState s \<and> save_calls s' = save_calls s"
  by (cases e) (auto simp: game_event_def handleSilentNavigation_fields playClickSound_def
      split: if_splits)

lemma step_nonzero:
  assumes "saved_nonzero s" and "step e s = Some s'"
  shows "saved_nonzero s'"
proof (cases e)
  case (Advance d)
  with assms show ?thesis by (auto simp: step_def saved_nonzero_def)
next
  case AudioLoaded
  with assms show ?thesis by (auto simp: step_def saved_nonzero_def split: if_splits)
next
  case ClickStart
  with assms show ?thesis
    by (auto simp: step_def game_event_def split: child.splits
        intro!: navigateToGame_nonzero) (simp add: saved_nonzero_def)
next
  case ClickLoad
  with assms show ?thesis
    by (auto simp: step_def game_event_def handleNavigation_fields saved_nonzero_def
        split: child.splits)
next
  case (ClickChapter index)
  with assms show ?thesis
    by (auto simp: step_def game_event_def chapterNumber_def showTooltip_fields
        saved_nonzero_def navigateToGame_fields split: child.splits if_splits)
next
  case ClickBack
  with assms show ?thesis
    by (auto simp: step_def game_event_def handleNavigation_fields saved_nonzero_def
        split: child.splits)
qed (use assms in \<open>auto simp: step_def saved_nonzero_def split: child.splits
       dest!: game_event_saves\<close>)

lemma run_nonzero: "saved_nonzero s \<Longrightarrow> run es s = Some s' \<Longrightarrow> saved_nonzero s'"
proof (induction es arbitrary: s)
  case Nil
  then show ?case by simp
next
  case (Cons e es)
  then obtain s1 where 1: "step e s = Some s1" and 2: "run es s1 = Some s'"
    by (auto split: option.splits)
  from Cons.IH [OF step_nonzero [OF Cons.prems(1) 1] 2] show ?case .
qed

lemma saves_of_mounted_app_nonzero:
  assumes "App_mount w = Some s" and "run es s = Some s'"
  shows "\<forall>g \<in> set (save_calls s'). currentChapter g \<noteq> 0 \<and> unlockedChapters g \<noteq> 0"
  using run_nonzero [OF App_mount_nonzero [OF assms(1)] assms(2)]
  by (simp add: saved_nonzero_def)


section \<open>The claims\<close>

text \<open>
  C1. Whenever the text stored under the program's key is absent, is not valid JSON, or
  parses to a record that lacks \<open>currentChapter\<close> or \<open>unlockedChapters\<close>,
  \<open>loadGameState\<close> returns exactly the default state \<open>{currentChapter: 1,
  unlockedChapters: 1}\<close>; it returns and does not throw (also when the storage refuses the
  read), and it leaves the storage as it was.
\<close>

theorem loadGameState_default:
  assumes "items (localStorage w) GAME_STATE_KEY = None
         \<or> (\<exists>text. items (localStorage w) GAME_STATE_KEY = Some text \<and>
              (JSON_parse text = None
               \<or> (\<exists>ms. JSON_parse text = Some (JObj ms) \<and>
                     (map_of ms (js ''currentChapter'') = None
                      \<or> map_of ms (js ''unlockedChapters'') = None))))"
  shows "fst (loadGameState w) = Returns (to_js defaultGameState)
       \<and> localStorage (snd (loadGameState w)) = localStorage w"
proof (cases "load_try (localStorage w)")
  case (Throws e)
  then show ?thesis by (simp add: loadGameState_def)
next
  case (Returns res)
  have "res = None"
  proof (cases "items (localStorage w) GAME_STATE_KEY")
    case None
    with Returns show ?thesis
      by (simp add: load_try_def getItem_def split: if_splits)
  next
    case (Some saved)
    with assms have
      "JSON_parse saved = None
       \<or> (\<exists>ms. JSON_parse saved = Some (JObj ms) \<and>
             (map_of ms (js ''currentChapter'') = None \<or> map_of ms (js ''unlockedChapters'') = None))"
      by simp
    with Returns Some show ?thesis
      by (auto simp: load_try_def getItem_def split: if_splits)
  qed
  with Returns show ?thesis by (simp add: loadGameState_def)
qed

text \<open>
  C1, at concrete inputs: an empty storage, a truncated text, and a record without
  \<open>unlockedChapters\<close>.
\<close>

theorem loadGameState_default_witness:
  \<open>fst (loadGameState fresh_world) = Returns (to_js defaultGameState)
   \<and> JSON_parse ''{"currentChapter":'' = None
   \<and> fst (loadGameState (stored ''{"currentChapter":'')) = Returns (to_js defaultGameState)
   \<and> JSON_parse ''{"currentChapter":3}'' = Some (JObj [(js ''currentChapter'', JNum 3)])
   \<and> fst (loadGameState (stored ''{"currentChapter":3}'')) = Returns (to_js defaultGameState)\<close>
proof -
  have a: "items (localStorage fresh_world) GAME_STATE_KEY = None"
    by (simp add: fresh_world_def)
  have p1: \<open>JSON_parse ''{"currentChapter":'' = None\<close> by code_simp
  have p2: \<open>JSON_parse ''{"currentChapter":3}'' = Some (JObj [(js ''currentChapter'', JNum 3)])\<close>
    by code_simp
  have m: "map_of [(js ''currentChapter'', JNum 3)] (js ''unlockedChapters'') = None"
    by (simp add: js_def)
  have s: "\<And>t. items (localStorage (stored t)) GAME_STATE_KEY = Some t"
    by (simp add: stored_def)
  show ?thesis
    using loadGameState_default [of fresh_world] a
      loadGameState_default [of \<open>stored ''{"currentChapter":''\<close>]
      loadGameState_default [of \<open>stored ''{"currentChapter":3}''\<close>] p1 p2 m s
    by simp
qed

text \<open>
  C2. On the chapter-select screen, a click on a chapter \<open>n\<close> of the list with
  \<open>n \<le> unlockedChapters\<close> shows the game view with chapter \<open>n\<close>, sets
  \<open>currentChapter\<close> to \<open>n\<close> and leaves the rest of the game state as it was, and
  \<open>saveGameState\<close> is called exactly once more, with the updated state.
\<close>

theorem select_unlocked_chapter:
  assumes "child s = ChapterSelect cs"
    and "index < length ROMAN_NUMERALS"
    and "chapterNumber index \<le> unlockedChapters (gameState s)"
  shows "\<exists>s' gv. step (ClickChapter index) s = Some s'
           \<and> view s' = Game \<and> child s' = GameView gv
           \<and> activeChapter s' = chapterNumber index
           \<and> gameState s' = (gameState s)\<lparr>currentChapter := chapterNumber index\<rparr>
           \<and> save_calls s' = save_calls s @ [gameState s']
           \<and> world s' = snd (saveGameState (gameState s') (world s))"
proof -
  from assms(3) have "\<not> isLocked (chapterNumber index) (unlockedChapters (gameState s))"
    by (simp add: isLocked_def)
  with assms(1,2) have "step (ClickChapter index) s = Some (navigateToGame (chapterNumber index) s)"
    by (simp add: step_def)
  then show ?thesis
    by (simp add: navigateToGame_fields navigateToGame_child)
qed

text \<open>C2, at the first chapter on the chapter-select screen of a fresh installation.\<close>

theorem select_unlocked_chapter_witness:
  "\<exists>s'. step (ClickChapter 0) select_state = Some s'
        \<and> view s' = Game \<and> activeChapter s' = 1
        \<and> gameState s' = \<lparr>currentChapter = 1, unlockedChapters = 1\<rparr>
        \<and> save_calls s' = [\<lparr>currentChapter = 1, unlockedChapters = 1\<rparr>,
                            \<lparr>currentChapter = 1, unlockedChapters = 1\<rparr>]"
  using select_unlocked_chapter [of select_state _ 0]
  by (auto simp: select_state_fields ROMAN_NUMERALS_def chapterNumber_def defaultGameState_def)

text \<open>
  C3. The lock flag of a chapter is \<open>n > unlockedChapters\<close>, for every chapter number
  and every value of \<open>unlockedChapters\<close>; at the boundary \<open>n = unlockedChapters\<close>
  the chapter is not locked; for the button at position \<open>index\<close> of the list the
  chapter number is \<open>index + 1\<close>. The flag is a function of its two arguments.
\<close>

theorem isLocked_gate:
  "isLocked n unlocked = (n > unlocked)
   \<and> isLocked unlocked unlocked = False
   \<and> isLocked (chapterNumber index) unlocked = (int index + 1 > unlocked)"
  by (simp add: isLocked_def chapterNumber_def)

text \<open>
  C4. On the chapter-select screen, a click on a chapter \<open>n\<close> of the list with
  \<open>n > unlockedChapters\<close> leaves the game state (so \<open>currentChapter\<close>), the
  active chapter, the view, the storage, the console and the record of save calls as they
  were. It sets the visible tooltip to the index of that chapter in the list and arms a
  timer that hides it 3000 ms later; no other timer is added. As every click handler but
  the exit button does, it calls \<open>playClickSound\<close>.
\<close>

theorem select_locked_chapter:
  assumes "child s = ChapterSelect cs"
    and "view s = Chapters"
    and "index < length ROMAN_NUMERALS"
    and "chapterNumber index > unlockedChapters (gameState s)"
  shows "\<exists>s'. step (ClickChapter index) s = Some s'
           \<and> gameState s' = gameState s \<and> activeChapter s' = activeChapter s
           \<and> view s' = Chapters
           \<and> world s' = world s \<and> save_calls s' = save_calls s
           \<and> now s' = now s \<and> child_id s' = child_id s \<and> audioBuffer s' = audioBuffer s
           \<and> sounds s' = sounds (playClickSound s)
           \<and> child s' = ChapterSelect \<lparr>visibleTooltip = Some index,
                                          tooltipTimeoutRef = Some (Suc (timer_seq s))\<rparr>
           \<and> \<lparr>timer_id = Suc (timer_seq s), due = now s + 3000, owner = child_id s,
               callback = HideTooltip\<rparr> \<in> set (timers s')
           \<and> set (timers s') \<subseteq> insert \<lparr>timer_id = Suc (timer_seq s), due = now s + 3000,
                  owner = child_id s, callback = HideTooltip\<rparr> (set (timers s))"
proof -
  from assms(4) have "isLocked (chapterNumber index) (unlockedChapters (gameState s))"
    by (simp add: isLocked_def)
  with assms(1,3) have st: "step (ClickChapter index) s = Some (showTooltip index cs s)"
    by (simp add: step_def)
  have "\<lparr>timer_id = Suc (timer_seq s), due = now s + 3000, owner = child_id s,
          callback = HideTooltip\<rparr> \<in> set (timers (showTooltip index cs s))"
    by (simp add: showTooltip_def setTimeout_def Let_def split: option.splits)
  moreover have "set (timers (showTooltip index cs s))
      \<subseteq> insert \<lparr>timer_id = Suc (timer_seq s), due = now s + 3000, owner = child_id s,
          callback = HideTooltip\<rparr> (set (timers s))"
    by (auto simp: showTooltip_def setTimeout_def Let_def split: option.splits if_splits)
  ultimately show ?thesis using st assms(2)
    by (simp add: showTooltip_fields)
qed

text \<open>C4, at the third chapter on the chapter-select screen of a fresh installation.\<close>

theorem select_locked_chapter_witness:
  "\<exists>s'. step (ClickChapter 2) select_state = Some s'
        \<and> gameState s' = defaultGameState \<and> activeChapter s' = 1 \<and> view s' = Chapters
        \<and> child s' = ChapterSelect \<lparr>visibleTooltip = Some 2, tooltipTimeoutRef = Some 1\<rparr>
        \<and> timers s' = [\<lparr>timer_id = 1, due = 3000, owner = 1, callback = HideTooltip\<rparr>]"
proof -
  have "\<forall>s'. step (ClickChapter 2) select_state = Some s' \<longrightarrow>
      timers s' = [\<lparr>timer_id = 1, due = 3000, owner = 1, callback = HideTooltip\<rparr>]"
    by (simp add: step_def select_state_fields ROMAN_NUMERALS_def isLocked_def chapterNumber_def
        defaultGameState_def showTooltip_timers select_state_timers)
  with select_locked_chapter [of select_state _ 2] show ?thesis
    by (auto simp: select_state_fields ROMAN_NUMERALS_def chapterNumber_def defaultGameState_def
        select_state_timers)
qed

text \<open>
  C5. No event changes \<open>unlockedChapters\<close>: every single step and every sequence of
  steps, from any state, ends with the value it started with; from the default state the
  value stays \<open>1\<close>.
\<close>

theorem unlockedChapters_never_changes:
  "(step e s = Some s' \<longrightarrow> unlockedChapters (gameState s') = unlockedChapters (gameState s))
   \<and> (run es s = Some s' \<longrightarrow> unlockedChapters (gameState s') = unlockedChapters (gameState s))
   \<and> (gameState s = defaultGameState \<longrightarrow> run es s = Some s' \<longrightarrow>
        unlockedChapters (gameState s') = 1)"
  using step_unlockedChapters [of e s s'] run_unlockedChapters [of es s s']
  by (auto simp: defaultGameState_def)

text \<open>C5, along a run from a fresh installation into chapter 1 and back to the menu.\<close>

theorem unlockedChapters_never_changes_witness:
  "run [ClickLoad, ClickChapter 0, ClickExit] menu_state
     = Some (handleSilentNavigation Menu (navigateToGame 1 select_state))
   \<and> gameState menu_state = defaultGameState
   \<and> unlockedChapters (gameState (handleSilentNavigation Menu (navigateToGame 1 select_state))) = 1"
proof -
  have s2: "step (ClickChapter 0) select_state = Some (navigateToGame 1 select_state)"
    by (simp add: step_def select_state_fields ROMAN_NUMERALS_def isLocked_def chapterNumber_def
        defaultGameState_def)
  have s3: "step ClickExit (navigateToGame 1 select_state)
      = Some (handleSilentNavigation Menu (navigateToGame 1 select_state))"
    by (simp add: step_def navigateToGame_child game_event_def)
  have r: "run [ClickLoad, ClickChapter 0, ClickExit] menu_state
     = Some (handleSilentNavigation Menu (navigateToGame 1 select_state))"
    by (simp add: step_ClickLoad_menu s2 s3)
  from unlockedChapters_never_changes
    [of ClickLoad menu_state "handleSilentNavigation Menu (navigateToGame 1 select_state)"
        "[ClickLoad, ClickChapter 0, ClickExit]"] r
  show ?thesis by (simp add: menu_state_fields)
qed







text \<open>
  C8. When the write to the storage throws (the storage is disabled, or the quota is
  exceeded), \<open>saveGameState\<close> returns normally, the error is logged on the console
  and nothing else happens: the stored content is what it was, and in the application
  the save effect leaves every part of the in-memory state but the console and the
  record of save calls unchanged.
\<close>

theorem saveGameState_swallows:
  assumes "setItem (localStorage w) GAME_STATE_KEY (JSON_stringify state) = Throws e"
  shows "saveGameState state w = (Returns (), w\<lparr>console := console w @ [SaveFailed e]\<rparr>)
       \<and> localStorage (snd (saveGameState state w)) = localStorage w
       \<and> (world s = w \<and> gameState s = state \<longrightarrow>
            save_effect s = s\<lparr>world := w\<lparr>console := console w @ [SaveFailed e]\<rparr>,
                              save_calls := save_calls s @ [state]\<rparr>)"
  using assms by (simp add: saveGameState_def save_effect_def)

text \<open>C8, at a disabled storage and at a full storage.\<close>

theorem saveGameState_swallows_witness:
  "setItem (localStorage blocked_world) GAME_STATE_KEY (JSON_stringify defaultGameState)
     = Throws SecurityError
   \<and> saveGameState defaultGameState blocked_world
     = (Returns (), blocked_world\<lparr>console := [SaveFailed SecurityError]\<rparr>)
   \<and> setItem (localStorage full_world) GAME_STATE_KEY (JSON_stringify defaultGameState)
     = Throws QuotaExceededError
   \<and> localStorage (snd (saveGameState defaultGameState full_world)) = localStorage full_world"
proof -
  have a: "setItem (localStorage blocked_world) GAME_STATE_KEY (JSON_stringify defaultGameState)
     = Throws SecurityError"
    by (simp add: setItem_def blocked_world_def)
  have b: "setItem (localStorage full_world) GAME_STATE_KEY (JSON_stringify defaultGameState)
     = Throws QuotaExceededError"
    by (simp add: setItem_def full_world_def)
  show ?thesis
    using saveGameState_swallows [OF a] saveGameState_swallows [OF b] a b
    by (simp add: blocked_world_def)
qed



text \<open>
  C10. In a running application that shows the game view, the exit button of the panel
  changes the view to the menu and nothing else of the application's state: the game
  state, the active chapter, the storage and the console are as before, no click sound
  is played and \<open>saveGameState\<close> is not called. The start button then shows the game
  view again, with the same chapter.
\<close>

theorem exit_is_silent:
  assumes "reachable s" and "view s = Game"
  shows "\<exists>s' s''. step ClickExit s = Some s'
           \<and> view s' = Menu
           \<and> gameState s' = gameState s \<and> activeChapter s' = activeChapter s
           \<and> sounds s' = sounds s \<and> save_calls s' = save_calls s \<and> world s' = world s
           \<and> step ClickStart s' = Some s''
           \<and> view s'' = Game \<and> activeChapter s'' = activeChapter s
           \<and> currentChapter (gameState s'') = activeChapter s"
proof -
  have w: "wf s" using assms(1) by (rule reachable_wf)
  then obtain gv where gv: "child s = GameView gv" using assms(2) wf_view_child(1) by blast
  let ?s' = "handleSilentNavigation Menu s"
  have 1: "step ClickExit s = Some ?s'"
    using gv by (simp add: step_def game_event_def)
  have "child ?s' = MainMenu"
    using assms(2) by (simp add: handleSilentNavigation_def render_child)
  then have 2: "step ClickStart ?s' = Some (navigateToGame (currentChapter (gameState ?s')) ?s')"
    by (simp add: step_def)
  have 3: "currentChapter (gameState ?s') = activeChapter s"
    using w by (simp add: wf_def handleSilentNavigation_fields)
  from 1 2 3 show ?thesis
    by (simp add: handleSilentNavigation_fields navigateToGame_fields)
qed

text \<open>C10, in chapter 1 of a fresh installation.\<close>

theorem exit_is_silent_witness:
  "view playing_state = Game \<and> activeChapter playing_state = 1
   \<and> (\<exists>s' s''. step ClickExit playing_state = Some s'
           \<and> view s' = Menu \<and> gameState s' = gameState playing_state
           \<and> sounds s' = sounds playing_state \<and> save_calls s' = save_calls playing_state
           \<and> step ClickStart s' = Some s'' \<and> view s'' = Game \<and> activeChapter s'' = 1)"
proof -
  have v: "view playing_state = Game" and a: "activeChapter playing_state = 1"
    by (simp_all add: playing_state_def navigateToGame_fields)
  from exit_is_silent [OF reachable_playing_state v] v a show ?thesis
    by auto
qed

end
